theory Spec2Isabelle
  imports Main
begin

section \<open>The Environments component of the delivery module\<close>

text \<open>
  The file \<^verbatim>\<open>delivery.module.js\<close> holds an AngularJS module declaration (a list of
  required sub-modules, with no behaviour of its own) and the React function component
  \<^verbatim>\<open>Environments\<close>. This theory embeds the component: the values it reads from
  its hooks, the view models it derives from them, the element tree it returns and the
  navigation calls its event handlers make.
\<close>

subsection \<open>JavaScript values and plain objects\<close>

text \<open>
  Router parameters are primitive JavaScript values. Numbers are restricted to integers
  (no \<^verbatim>\<open>NaN\<close>, no fractions). \<open>truthy\<close> is JavaScript's conversion to boolean, as
  applied by \<^verbatim>\<open>?:\<close>, \<^verbatim>\<open>&&\<close>, \<^verbatim>\<open>||\<close> and \<^verbatim>\<open>!\<close>.
\<close>

datatype jsval = JUndefined | JNull | JBool bool | JNum int | JStr string

fun truthy :: "jsval \<Rightarrow> bool" where
  "truthy JUndefined = False"
| "truthy JNull = False"
| "truthy (JBool b) = b"
| "truthy (JNum n) = (n \<noteq> 0)"
| "truthy (JStr s) = (s \<noteq> [])"

text \<open>
  A plain object is the map from its own property names to their values. A property may
  be present with the value \<^verbatim>\<open>undefined\<close> (\<open>Some JUndefined\<close>), which differs from an
  absent property (\<open>None\<close>).
\<close>

type_synonym jsobj = "string \<rightharpoonup> jsval"

text \<open>
  Reading \<^verbatim>\<open>obj.k\<close> for the names the component reads from parameter objects
  (\<^verbatim>\<open>type\<close>, \<^verbatim>\<open>name\<close>, \<^verbatim>\<open>version\<close>), none of which \<^verbatim>\<open>Object.prototype\<close> has: an
  absent property reads as \<^verbatim>\<open>undefined\<close>.
\<close>

definition getProp :: "jsobj \<Rightarrow> string \<Rightarrow> jsval" where
  "getProp obj k = (case obj k of None \<Rightarrow> JUndefined | Some v \<Rightarrow> v)"

text \<open>
  lodash \<^verbatim>\<open>pick(object, paths)\<close>: a new object that receives, for each path in turn,
  the property of \<^verbatim>\<open>object\<close> at that path when \<^verbatim>\<open>object\<close> has it.
\<close>

definition pick :: "jsobj \<Rightarrow> string list \<Rightarrow> jsobj" where
  "pick obj paths =
     fold (\<lambda>k result. case obj k of None \<Rightarrow> result | Some v \<Rightarrow> result(k \<mapsto> v))
       paths Map.empty"

text \<open>
  lodash \<^verbatim>\<open>isEqual\<close> on values that are \<^verbatim>\<open>null\<close> (\<open>None\<close>) or a plain object of
  primitives: two objects are equal when they have the same own keys with the same
  values; \<^verbatim>\<open>null\<close> equals only \<^verbatim>\<open>null\<close>.
\<close>

definition isEqual :: "jsobj option \<Rightarrow> jsobj option \<Rightarrow> bool" where
  "isEqual a b = (a = b)"

text \<open>
  lodash \<^verbatim>\<open>keyBy(collection, iteratee)\<close>: an object that maps the key of each element
  to the element; elements are assigned in order, so the last element of a key stays.
\<close>

definition keyBy :: "'a list \<Rightarrow> ('a \<Rightarrow> string) \<Rightarrow> (string \<rightharpoonup> 'a)" where
  "keyBy collection iteratee =
     fold (\<lambda>v result. result(iteratee v \<mapsto> v)) collection Map.empty"

subsection \<open>The data of the environments data source\<close>

text \<open>
  The interfaces are declared in \<^verbatim>\<open>../domain\<close>; the records carry the fields this
  component reads. A resource summary has an \<^verbatim>\<open>id\<close> (field \<open>id'\<close>) and further
  fields, kept as \<open>summary\<close>. An environment summary has a \<^verbatim>\<open>name\<close> and the list
  \<^verbatim>\<open>resources\<close> of resource ids, which the component binds to \<^verbatim>\<open>resourceIds\<close>.
\<close>

record 'p IManagedResourceSummary =
  id' :: string
  summary :: 'p

record IManagedEnvironmentSummary =
  name :: string
  resourceIds :: "string list"

record IManagedArtifactVersion =
  version :: string

record IManagedArtifactSummary =
  artifact_type :: string
  artifact_name :: string
  versions :: "IManagedArtifactVersion list"

text \<open>
  \<^verbatim>\<open>resourcesById\<close> is the plain object \<^verbatim>\<open>keyBy\<close> returns, as the map of its own
  properties. The read \<^verbatim>\<open>resourcesById[id]\<close> is an ordinary property read: it gives the
  own property when there is one, otherwise the member of \<^verbatim>\<open>Object.prototype\<close> of that
  name when there is one (a function or object that is no resource summary), otherwise
  \<^verbatim>\<open>undefined\<close>. The names are those of the members the ECMAScript standard gives
  \<^verbatim>\<open>Object.prototype\<close>.
\<close>

type_synonym 'p byId = "string \<rightharpoonup> 'p IManagedResourceSummary"

datatype 'p member = Summary "'p IManagedResourceSummary" | Inherited string | Undefined

definition Object_prototype_names :: "string list" where
  "Object_prototype_names =
     [''constructor'', ''hasOwnProperty'', ''isPrototypeOf'', ''propertyIsEnumerable'',
      ''toLocaleString'', ''toString'', ''valueOf'', ''__proto__'', ''__defineGetter__'',
      ''__defineSetter__'', ''__lookupGetter__'', ''__lookupSetter__'']"

definition readMember :: "'p byId \<Rightarrow> string \<Rightarrow> 'p member" where
  "readMember byId k =
     (case byId k of
        Some r \<Rightarrow> Summary r
      | None \<Rightarrow> if k \<in> set Object_prototype_names then Inherited k else Undefined)"

text \<open>
  \<^verbatim>\<open>resourcesByEnvironment\<close> is the accumulator of the \<^verbatim>\<open>reduce\<close>, as the map from
  the names assigned to the list last assigned under each. (An assignment under
  \<^verbatim>\<open>__proto__\<close> goes through the inherited setter and is read back through the getter.)
\<close>

type_synonym 'p byEnvironment = "string \<rightharpoonup> 'p member list"

subsection \<open>Derived view models\<close>

text \<open>
  \<^verbatim>\<open>useMemo(f, deps)\<close> returns \<^verbatim>\<open>f()\<close> on the first render and whenever a dependency
  has changed, and the cached value otherwise. The definitions of this subsection are
  the functions \<^verbatim>\<open>f\<close>. The cells of \<^verbatim>\<open>resourcesById\<close>, \<^verbatim>\<open>resourcesByEnvironment\<close>
  and \<^verbatim>\<open>selectedVersion\<close> are modelled further below. The results of the other two
  (\<^verbatim>\<open>selectedArtifactDetails\<close>, \<^verbatim>\<open>selectedVersionDetails\<close>) are determined by the
  values and the contents of their dependencies, so their cached values are the computed
  ones as long as an array or object keeps the contents it was handed out with.
\<close>

definition resourcesById :: "'p IManagedResourceSummary list \<Rightarrow> 'p byId" where
  "resourcesById resources = keyBy resources id'"

text \<open>
  The reducer of \<^verbatim>\<open>environments.reduce\<close>: it assigns, under the environment's name,
  the list of the reads \<^verbatim>\<open>resourcesById[id]\<close>, and returns the accumulator.
\<close>

definition byEnvironment_step ::
  "'p byId \<Rightarrow> IManagedEnvironmentSummary \<Rightarrow> 'p byEnvironment \<Rightarrow> 'p byEnvironment" where
  "byEnvironment_step byId e byEnvironment =
     byEnvironment(name e \<mapsto> map (\<lambda>i. readMember byId i) (resourceIds e))"

definition resourcesByEnvironment_of ::
  "IManagedEnvironmentSummary list \<Rightarrow> 'p byId \<Rightarrow> 'p byEnvironment" where
  "resourcesByEnvironment_of environments byId =
     fold (byEnvironment_step byId) environments Map.empty"

definition resourcesByEnvironment ::
  "IManagedEnvironmentSummary list \<Rightarrow> 'p IManagedResourceSummary list \<Rightarrow> 'p byEnvironment" where
  "resourcesByEnvironment environments resources =
     resourcesByEnvironment_of environments (resourcesById resources)"

definition selectedVersion :: "jsobj \<Rightarrow> jsobj option" where
  "selectedVersion params =
     (if truthy (getProp params ''version'')
      then Some (pick params [''type'', ''name'', ''version''])
      else None)"

text \<open>
  \<^verbatim>\<open>selectedVersion && artifacts.find(...)\<close>: \<^verbatim>\<open>null\<close> without a selection and
  \<^verbatim>\<open>undefined\<close> when no artifact matches, both \<open>None\<close>. The comparisons are \<^verbatim>\<open>===\<close>
  between an artifact's string and a value read from the selection. The callback of the
  second \<^verbatim>\<open>find\<close> reads \<^verbatim>\<open>selectedVersion.version\<close>; it runs only when an artifact
  was found, hence only with a selection.
\<close>

definition selectedArtifactDetails ::
  "jsobj option \<Rightarrow> IManagedArtifactSummary list \<Rightarrow> IManagedArtifactSummary option" where
  "selectedArtifactDetails sel artifacts =
     (case sel of
        None \<Rightarrow> None
      | Some sv \<Rightarrow>
          find (\<lambda>a. JStr (artifact_type a) = getProp sv ''type'' \<and>
                     JStr (artifact_name a) = getProp sv ''name'') artifacts)"

definition selectedVersionDetails ::
  "jsobj option \<Rightarrow> IManagedArtifactSummary option \<Rightarrow> IManagedArtifactVersion option" where
  "selectedVersionDetails sel details =
     (case details of
        None \<Rightarrow> None
      | Some a \<Rightarrow>
          (case sel of
             None \<Rightarrow> None
           | Some sv \<Rightarrow> find (\<lambda>v. JStr (version v) = getProp sv ''version'') (versions a)))"

subsection \<open>Settings\<close>

text \<open>
  \<^verbatim>\<open>SETTINGS.managedDelivery\<close> is optional, and so is its \<^verbatim>\<open>gettingStartedUrl\<close>.
  The link is \<^verbatim>\<open>SETTINGS.managedDelivery?.gettingStartedUrl || defaultGettingStartedUrl\<close>:
  the left operand when it is truthy (a non-empty string), the default otherwise.
\<close>

record managedDelivery_settings =
  gettingStartedUrl :: "string option"

record settings =
  managedDelivery :: "managedDelivery_settings option"

definition defaultGettingStartedUrl :: string where
  "defaultGettingStartedUrl =
     ''https://www.spinnaker.io/guides/user/managed-delivery/getting-started/''"

definition gettingStartedLink :: "settings \<Rightarrow> string" where
  "gettingStartedLink SETTINGS =
     (case managedDelivery SETTINGS of
        None \<Rightarrow> defaultGettingStartedUrl
      | Some md \<Rightarrow>
          (case gettingStartedUrl md of
             None \<Rightarrow> defaultGettingStartedUrl
           | Some url \<Rightarrow> if url \<noteq> [] then url else defaultGettingStartedUrl))"

subsection \<open>What a render reads\<close>

text \<open>
  One render reads the data, \<^verbatim>\<open>status\<close> and \<^verbatim>\<open>loaded\<close> from \<^verbatim>\<open>useDataSource\<close>,
  the route parameters from \<^verbatim>\<open>useCurrentStateAndParams\<close> and the global settings.
\<close>

record 'p inputs =
  environments :: "IManagedEnvironmentSummary list"
  artifacts :: "IManagedArtifactSummary list"
  resources :: "'p IManagedResourceSummary list"
  hasManagedResources :: bool
  status :: string
  loaded :: bool
  params :: jsobj
  SETTINGS :: settings

definition loadFailure :: "'p inputs \<Rightarrow> bool" where
  "loadFailure i = (status i = ''ERROR'')"

text \<open>
  \<^verbatim>\<open>const [isFiltersOpen] = useState(false)\<close>: the component takes no setter, so the
  flag keeps its initial value.
\<close>

definition isFiltersOpen :: bool where
  "isFiltersOpen = False"

subsection \<open>Element trees\<close>

text \<open>
  The child components with the props the component passes to them. The props that are
  functions (\<^verbatim>\<open>versionSelected\<close>, \<^verbatim>\<open>onRequestClose\<close>) are the handlers defined below;
  the \<^verbatim>\<open>application\<close> prop is the component's own \<^verbatim>\<open>app\<close> prop, passed on as it is.
\<close>

datatype 'p component =
    Spinner string string
  | ColumnHeader string string
  | ArtifactsList "IManagedArtifactSummary list" "jsobj option"
  | EnvironmentsList "IManagedEnvironmentSummary list" "IManagedArtifactSummary list" "'p byId"
  | ArtifactDetail jsval jsval "IManagedArtifactVersion option" "IManagedArtifactVersion list"
      "'p byEnvironment"

text \<open>
  An element has a tag, its attributes (a style property \<^verbatim>\<open>p\<close> under the name
  \<^verbatim>\<open>style.p\<close>) and its children. A child that is \<^verbatim>\<open>false\<close> or \<^verbatim>\<open>null\<close> renders
  nothing and is left out of the list.
\<close>

datatype 'p vnode =
    Elem string "(string \<times> string) list" "'p vnode list"
  | Fragment "'p vnode list"
  | Text string
  | Comp "'p component"

fun texts :: "'p vnode \<Rightarrow> string list" where
  "texts (Elem tag attrs children) = concat (map texts children)"
| "texts (Fragment children) = concat (map texts children)"
| "texts (Text s) = [s]"
| "texts (Comp c) = []"

fun components :: "'p vnode \<Rightarrow> 'p component list" where
  "components (Elem tag attrs children) = concat (map components children)"
| "components (Fragment children) = concat (map components children)"
| "components (Text s) = []"
| "components (Comp c) = [c]"

fun tags :: "'p vnode \<Rightarrow> string list" where
  "tags (Elem tag attrs children) = tag # concat (map tags children)"
| "tags (Fragment children) = concat (map tags children)"
| "tags (Text s) = []"
| "tags (Comp c) = []"

text \<open>The values of the attribute \<open>a\<close> in a tree, in document order.\<close>

fun attribute :: "string \<Rightarrow> 'p vnode \<Rightarrow> string list" where
  "attribute a (Elem tag attrs children) =
     map snd (filter (\<lambda>kv. fst kv = a) attrs) @ concat (map (attribute a) children)"
| "attribute a (Fragment children) = concat (map (attribute a) children)"
| "attribute a (Text s) = []"
| "attribute a (Comp c) = []"

subsection \<open>Rendering\<close>

datatype js_error = TypeError

definition CONTENT_WIDTH :: nat where
  "CONTENT_WIDTH = 1200"

text \<open>Number to string, as \<^verbatim>\<open>+ 'px'\<close> converts a non-negative integer.\<close>

definition digit :: "nat \<Rightarrow> char" where
  "digit d = ''0123456789'' ! d"

function decimal :: "nat \<Rightarrow> string" where
  "decimal n = (if n < 10 then [digit n] else decimal (n div 10) @ [digit (n mod 10)])"
  by pat_completeness auto
termination
  by (relation "measure (\<lambda>n. n)") auto

declare decimal.simps [simp del]

definition totalContentWidth :: string where
  "totalContentWidth =
     (if isFiltersOpen then decimal (CONTENT_WIDTH + 248) @ ''px''
      else decimal CONTENT_WIDTH @ ''px'')"

definition error_view :: "'p vnode" where
  "error_view =
     Elem ''div'' [(''style.width'', ''100%'')]
       [Elem ''h4'' [(''className'', ''text-center'')]
          [Text ''There was an error loading environments.'']]"

definition loading_view :: "'p vnode" where
  "loading_view =
     Elem ''div'' [(''style.width'', ''100%'')]
       [Comp (Spinner ''medium'' ''Loading environments ...'')]"

definition unmanaged_view :: "string \<Rightarrow> 'p vnode" where
  "unmanaged_view link =
     Elem ''div'' [(''style.width'', ''100%'')]
       [Text ''Welcome! This application does not have any environments or artifacts. Check out the'',
        Text '' '',
        Elem ''a'' [(''href'', link), (''target'', ''_blank'')] [Text ''getting started guide''],
        Text '' '',
        Text ''to set some up!'']"

text \<open>
  The environments column: the list of environments without a selection, the detail of
  the selected artifact with one. The \<^verbatim>\<open>allVersions\<close> prop reads
  \<^verbatim>\<open>selectedArtifactDetails.versions\<close> with a plain member access, which throws a
  \<^verbatim>\<open>TypeError\<close> when no artifact matched the selection.
\<close>

definition environmentsColumn ::
  "'p inputs \<Rightarrow> jsobj option \<Rightarrow> 'p byId \<Rightarrow> 'p byEnvironment \<Rightarrow> js_error + 'p vnode list" where
  "environmentsColumn i sel byId byEnvironment =
     (let details = selectedArtifactDetails sel (artifacts i)
      in case sel of
           None \<Rightarrow>
             Inr [Fragment
                    [Comp (ColumnHeader ''Environments'' ''environment''),
                     Comp (EnvironmentsList (environments i) (artifacts i) byId)]]
         | Some sv \<Rightarrow>
             (case details of
                None \<Rightarrow> Inl TypeError
              | Some a \<Rightarrow>
                  Inr [Comp (ArtifactDetail (getProp sv ''name'') (getProp sv ''type'')
                               (selectedVersionDetails sel details) (versions a)
                               byEnvironment)]))"

definition populated_view :: "'p inputs \<Rightarrow> jsobj option \<Rightarrow> 'p vnode list \<Rightarrow> 'p vnode" where
  "populated_view i sel column =
     Elem ''div'' [(''style.width'', ''100%'')]
       [Elem ''span'' []
          [Text ''For there shall be no greater pursuit than that towards desired state.''],
        Elem ''div''
          [(''style.maxWidth'', totalContentWidth), (''style.display'', ''flex'')]
          [Elem ''div''
             [(''className'', ''styles.mainContent''),
              (''style.flex'', ''0 1 '' @ totalContentWidth)]
             [Elem ''div'' [(''className'', ''styles.artifactsColumn'')]
                [Comp (ColumnHeader ''Artifacts'' ''artifact''),
                 Comp (ArtifactsList (artifacts i) sel)],
              Elem ''div'' [(''className'', ''styles.environmentsColumn'')] column]]]"

text \<open>
  The statements of the component after its hooks: the three early returns in the order
  of the source, then the layout. \<open>sel\<close>, \<open>byId\<close> and \<open>byEnvironment\<close> are the
  values the \<^verbatim>\<open>useMemo\<close> calls for \<^verbatim>\<open>selectedVersion\<close>, \<^verbatim>\<open>resourcesById\<close> and
  \<^verbatim>\<open>resourcesByEnvironment\<close> returned.
\<close>

definition render_body ::
  "'p inputs \<Rightarrow> jsobj option \<Rightarrow> 'p byId \<Rightarrow> 'p byEnvironment \<Rightarrow> js_error + 'p vnode" where
  "render_body i sel byId byEnvironment =
     (if loadFailure i then Inr error_view
      else if \<not> loaded i then Inr loading_view
      else
        let unmanaged = (loaded i \<and> \<not> hasManagedResources i)
        in if unmanaged then Inr (unmanaged_view (gettingStartedLink (SETTINGS i)))
           else
             (case environmentsColumn i sel byId byEnvironment of
                Inl err \<Rightarrow> Inl err
              | Inr column \<Rightarrow> Inr (populated_view i sel column)))"

text \<open>
  The first render of the component, in which every \<^verbatim>\<open>useMemo\<close> computes its value
  from the current inputs.
\<close>

definition Environments :: "'p inputs \<Rightarrow> js_error + 'p vnode" where
  "Environments i =
     render_body i (selectedVersion (params i)) (resourcesById (resources i))
       (resourcesByEnvironment (environments i) (resources i))"

subsection \<open>Component state, memoisation and event handlers\<close>

text \<open>
  Between renders the component keeps the cells of its \<^verbatim>\<open>useMemo\<close> calls. React
  compares dependencies with \<^verbatim>\<open>Object.is\<close>: arrays and objects by identity, the
  primitive values \<^verbatim>\<open>params.type\<close>, \<^verbatim>\<open>params.name\<close> and \<^verbatim>\<open>params.version\<close> by
  value. An array or object is therefore a pair of its identity and its contents. A cell holds the
  dependencies of the last computation and the object it produced; \<open>fresh\<close> is the
  identity the next new object receives. The router owns the parameters, and the model
  records each call of its \<^verbatim>\<open>go\<close> (target state and parameters) in the order made.
\<close>

datatype navigation = Go string "jsobj option"

record 'p world =
  byId_memo :: "(nat \<times> nat \<times> 'p byId) option"
  byEnvironment_memo :: "((nat \<times> nat) \<times> nat \<times> 'p byEnvironment) option"
  selectedVersion_memo :: "((jsval \<times> jsval \<times> jsval) \<times> nat \<times> jsobj option) option"
  fresh :: nat
  routerParams :: jsobj
  calls :: "navigation list"

text \<open>
  \<^verbatim>\<open>useMemo\<close> on one cell: the cached object when the dependencies are the cached
  ones, otherwise the newly computed value \<open>v\<close> as a new object.
\<close>

definition useMemo ::
  "'v \<Rightarrow> 'd \<Rightarrow> ('d \<times> nat \<times> 'v) option \<Rightarrow> nat \<Rightarrow> (nat \<times> 'v) \<times> ('d \<times> nat \<times> 'v) option \<times> nat" where
  "useMemo v deps cell next =
     (case cell of
        None \<Rightarrow> ((next, v), Some (deps, next, v), Suc next)
      | Some (cached_deps, object) \<Rightarrow>
          if cached_deps = deps then (object, cell, next)
          else ((next, v), Some (deps, next, v), Suc next))"

text \<open>The two resource hooks of one render, on the arrays \<open>envs\<close> and \<open>ress\<close>.\<close>

definition derive ::
  "nat \<times> IManagedEnvironmentSummary list \<Rightarrow> nat \<times> 'p IManagedResourceSummary list \<Rightarrow>
   'p world \<Rightarrow> ('p byId \<times> 'p byEnvironment) \<times> 'p world" where
  "derive envs ress w =
     (let (byId, cell1, next1) =
            useMemo (resourcesById (snd ress)) (fst ress) (byId_memo w) (fresh w);
          (byEnvironment, cell2, next2) =
            useMemo (resourcesByEnvironment_of (snd envs) (snd byId)) (fst envs, fst byId)
              (byEnvironment_memo w) next1
      in ((snd byId, snd byEnvironment),
          w\<lparr>byId_memo := cell1, byEnvironment_memo := cell2, fresh := next2\<rparr>))"

text \<open>
  The hook of \<^verbatim>\<open>selectedVersion\<close> on the route parameters \<open>ps\<close>, with the
  dependencies \<^verbatim>\<open>[params.type, params.name, params.version]\<close>.
\<close>

definition use_selectedVersion :: "jsobj \<Rightarrow> 'p world \<Rightarrow> jsobj option \<times> 'p world" where
  "use_selectedVersion ps w =
     (let (sel, cell, next) =
            useMemo (selectedVersion ps)
              (getProp ps ''type'', getProp ps ''name'', getProp ps ''version'')
              (selectedVersion_memo w) (fresh w)
      in (snd sel, w\<lparr>selectedVersion_memo := cell, fresh := next\<rparr>))"

text \<open>
  A render of the mounted component: \<open>env_id\<close> and \<open>res_id\<close> are the identities of the
  arrays \<^verbatim>\<open>environments\<close> and \<^verbatim>\<open>resources\<close> of the inputs. The hooks run in the order
  of the source, before the early returns.
\<close>

definition Environments_memo ::
  "nat \<Rightarrow> nat \<Rightarrow> 'p inputs \<Rightarrow> 'p world \<Rightarrow> (js_error + 'p vnode) \<times> 'p world" where
  "Environments_memo env_id res_id i w =
     (let ((byId, byEnvironment), w1) = derive (env_id, environments i) (res_id, resources i) w;
          (sel, w2) = use_selectedVersion (params i) w1
      in (render_body i sel byId byEnvironment, w2))"

definition go :: "string \<Rightarrow> jsobj option \<Rightarrow> 'p world \<Rightarrow> 'p world" where
  "go target ps w = w\<lparr>calls := calls w @ [Go target ps]\<rparr>"

text \<open>
  The \<^verbatim>\<open>versionSelected\<close> prop of the artifacts list, a closure over the
  \<^verbatim>\<open>selectedVersion\<close> of the render that created it.
\<close>

definition versionSelected :: "jsobj option \<Rightarrow> jsobj \<Rightarrow> 'p world \<Rightarrow> 'p world" where
  "versionSelected sel clickedVersion w =
     (if \<not> isEqual (Some clickedVersion) sel
      then go (if sel \<noteq> None then ''.'' else ''.artifactVersion'') (Some clickedVersion) w
      else w)"

definition onRequestClose :: "'p world \<Rightarrow> 'p world" where
  "onRequestClose w = go ''^'' None w"

text \<open>The life of a mounted component: renders and handler calls, in any order.\<close>

datatype 'p event =
    Render nat nat "'p inputs"
  | VersionSelected "jsobj option" jsobj
  | RequestClose

fun step :: "'p event \<Rightarrow> 'p world \<Rightarrow> 'p world" where
  "step (Render env_id res_id i) w = snd (Environments_memo env_id res_id i w)"
| "step (VersionSelected sel clickedVersion) w = versionSelected sel clickedVersion w"
| "step RequestClose w = onRequestClose w"

definition mount :: "jsobj \<Rightarrow> 'p world" where
  "mount ps = \<lparr>byId_memo = None, byEnvironment_memo = None, selectedVersion_memo = None,
               fresh = 0, routerParams = ps, calls = []\<rparr>"

definition run :: "'p event list \<Rightarrow> 'p world \<Rightarrow> 'p world" where
  "run evs w = fold step evs w"

text \<open>
  The arrays the renders of a run received. The data source replaces its arrays and does
  not write into them: within a run, one identity stands for one contents.
\<close>

fun environments_read :: "'p event list \<Rightarrow> (nat \<times> IManagedEnvironmentSummary list) list" where
  "environments_read [] = []"
| "environments_read (Render env_id res_id i # evs) = (env_id, environments i) # environments_read evs"
| "environments_read (ev # evs) = environments_read evs"

fun resources_read :: "'p event list \<Rightarrow> (nat \<times> 'p IManagedResourceSummary list) list" where
  "resources_read [] = []"
| "resources_read (Render env_id res_id i # evs) = (res_id, resources i) # resources_read evs"
| "resources_read (ev # evs) = resources_read evs"

definition immutable :: "'p event list \<Rightarrow> bool" where
  "immutable evs =
     (single_valued (set (environments_read evs)) \<and> single_valued (set (resources_read evs)))"

text \<open>
  What the memo cells of a mounted component hold, relative to the environment arrays
  \<open>E\<close> and the resource arrays \<open>R\<close> its renders have received: the cell of
  \<^verbatim>\<open>resourcesById\<close> holds the value for one of the resource arrays, under its identity;
  the cell of \<^verbatim>\<open>resourcesByEnvironment\<close>, when it depends on the object in the first
  cell, holds the value for one of the environment arrays and that object. Objects in
  the cells have identities below \<open>fresh\<close>.
\<close>

definition memo_inv ::
  "(nat \<times> IManagedEnvironmentSummary list) set \<Rightarrow> (nat \<times> 'p IManagedResourceSummary list) set \<Rightarrow>
   'p world \<Rightarrow> bool" where
  "memo_inv E R w =
     ((\<forall>d n v. byId_memo w = Some (d, n, v) \<longrightarrow>
         n < fresh w \<and> (\<exists>c. (d, c) \<in> R \<and> v = resourcesById c)) \<and>
      (\<forall>de db n v. byEnvironment_memo w = Some ((de, db), n, v) \<longrightarrow>
         db < fresh w \<and>
         (\<forall>d v1. byId_memo w = Some (d, db, v1) \<longrightarrow>
            (\<exists>c. (de, c) \<in> E \<and> v = resourcesByEnvironment_of c v1))))"


section \<open>Properties\<close>

subsection \<open>Library functions\<close>

lemma pick_fold:
  "fold (\<lambda>k result. case obj k of None \<Rightarrow> result | Some v \<Rightarrow> result(k \<mapsto> v)) paths acc
     = (\<lambda>k. if k \<in> set paths \<and> obj k \<noteq> None then obj k else acc k)"
  by (induction paths arbitrary: acc) (auto simp: fun_eq_iff split: option.splits)

lemma pick_restrict: "pick obj paths = obj |` set paths"
  by (auto simp: pick_def pick_fold restrict_map_def fun_eq_iff)



subsection \<open>The selected version\<close>




text \<open>
  The dependencies of the \<^verbatim>\<open>useMemo\<close> call for \<^verbatim>\<open>selectedArtifactDetails\<close> are the
  values \<^verbatim>\<open>selectedVersion?.type\<close> and \<^verbatim>\<open>selectedVersion?.name\<close> and the array
  \<^verbatim>\<open>artifacts\<close>. Equal values give equal results on the same artifacts.
\<close>

lemma find_never: "find (\<lambda>a. False) xs = None"
  by (induction xs) simp_all

lemma selectedArtifactDetails_deps:
  assumes "(case sel of None \<Rightarrow> JUndefined | Some sv \<Rightarrow> getProp sv ''type'') =
           (case sel' of None \<Rightarrow> JUndefined | Some sv \<Rightarrow> getProp sv ''type'')"
    and "(case sel of None \<Rightarrow> JUndefined | Some sv \<Rightarrow> getProp sv ''name'') =
         (case sel' of None \<Rightarrow> JUndefined | Some sv \<Rightarrow> getProp sv ''name'')"
  shows "selectedArtifactDetails sel arts = selectedArtifactDetails sel' arts"
  using assms
  by (cases sel; cases sel') (auto simp: selectedArtifactDetails_def find_never)













subsection \<open>Resources by environment\<close>













subsection \<open>The four views\<close>

lemma render_error: "status i = ''ERROR'' \<Longrightarrow> render_body i sel byId byEnv = Inr error_view"
  by (simp add: render_body_def loadFailure_def)

lemma render_loading:
  "status i \<noteq> ''ERROR'' \<Longrightarrow> \<not> loaded i \<Longrightarrow> render_body i sel byId byEnv = Inr loading_view"
  by (simp add: render_body_def loadFailure_def)

lemma render_unmanaged:
  "status i \<noteq> ''ERROR'' \<Longrightarrow> loaded i \<Longrightarrow> \<not> hasManagedResources i \<Longrightarrow>
   render_body i sel byId byEnv = Inr (unmanaged_view (gettingStartedLink (SETTINGS i)))"
  by (simp add: render_body_def loadFailure_def)

lemma views_distinct:
  "(error_view :: 'p vnode) \<noteq> loading_view"
  "(error_view :: 'p vnode) \<noteq> unmanaged_view link"
  "(error_view :: 'p vnode) \<noteq> populated_view i sel column"
  "(loading_view :: 'p vnode) \<noteq> unmanaged_view link"
  "(loading_view :: 'p vnode) \<noteq> populated_view i sel column"
  "unmanaged_view link \<noteq> populated_view i sel column"
  by (simp_all add: error_view_def loading_view_def unmanaged_view_def populated_view_def)

lemma Environments_first_render:
  "fst (Environments_memo env_id res_id i (mount ps)) = Environments i"
  by (simp add: Environments_memo_def Environments_def derive_def use_selectedVersion_def
      useMemo_def mount_def resourcesByEnvironment_def Let_def)

lemma Environments_cases:
  fixes i :: "'p inputs"
  shows "Environments i = Inl TypeError \<or> Environments i = Inr error_view \<or>
     Environments i = Inr loading_view \<or>
     Environments i = Inr (unmanaged_view (gettingStartedLink (SETTINGS i))) \<or>
     (\<exists>column. Environments i = Inr (populated_view i (selectedVersion (params i)) column))"
  by (simp add: Environments_def render_body_def split: sum.splits) (metis (full_types) js_error.exhaust)

lemma Environments_throws_iff:
  "Environments i = Inl err \<longleftrightarrow>
     status i \<noteq> ''ERROR'' \<and> loaded i \<and> hasManagedResources i \<and>
     selectedVersion (params i) \<noteq> None \<and>
     selectedArtifactDetails (selectedVersion (params i)) (artifacts i) = None"
  by (cases err) (auto simp: Environments_def render_body_def loadFailure_def environmentsColumn_def Let_def
      split: sum.splits option.splits)

text \<open>
  Claim C3: every combination of \<^verbatim>\<open>status\<close>, \<^verbatim>\<open>loaded\<close> and
  \<^verbatim>\<open>hasManagedResources\<close> should produce one of the four views. With the data loaded,
  managed resources present and route parameters that select a version of an artifact
  which is not in \<^verbatim>\<open>artifacts\<close>, the component produces none of them: the read of
  \<^verbatim>\<open>selectedArtifactDetails.versions\<close> throws. (By \<open>Environments_cases\<close> and
  \<open>Environments_throws_iff\<close> this is the only way to miss the four views.)
\<close>

theorem unmatched_selection_throws:
  "Environments \<lparr>environments = [], artifacts = [],
       resources = ([] :: unit IManagedResourceSummary list),
       hasManagedResources = True, status = ''FETCHED'', loaded = True,
       params = [''type'' \<mapsto> JStr ''deb'', ''name'' \<mapsto> JStr ''deck'', ''version'' \<mapsto> JStr ''1.0.0''],
       SETTINGS = \<lparr>managedDelivery = None\<rparr>\<rparr> = Inl TypeError"
  by (simp add: Environments_def render_body_def loadFailure_def environmentsColumn_def
      selectedVersion_def getProp_def selectedArtifactDetails_def)

text \<open>
  Claim C4: with the status \<^verbatim>\<open>ERROR\<close> the component returns the error view, whatever
  the other inputs and the memo cells are. The error view holds the one message and no
  child component; it is none of the other three views.
\<close>

theorem error_status_renders_error_message_only:
  fixes i :: "'p inputs"
  assumes "status i = ''ERROR''"
  shows "Environments i = Inr error_view \<and>
         fst (Environments_memo env_id res_id i w) = Inr error_view \<and>
         texts (error_view :: 'p vnode) = [''There was an error loading environments.''] \<and>
         components (error_view :: 'p vnode) = [] \<and>
         tags (error_view :: 'p vnode) = [''div'', ''h4''] \<and>
         Environments i \<noteq> Inr loading_view \<and>
         (\<forall>link. Environments i \<noteq> Inr (unmanaged_view link)) \<and>
         (\<forall>j sel column. Environments i \<noteq> Inr (populated_view j sel column))"
proof -
  have e: "Environments i = Inr error_view"
    using assms by (simp add: Environments_def render_error)
  have m: "fst (Environments_memo env_id res_id i w) = Inr error_view"
    using assms by (simp add: Environments_memo_def render_error split: prod.splits)
  have t: "texts (error_view :: 'p vnode) = [''There was an error loading environments.'']"
    by (simp add: error_view_def)
  have c: "components (error_view :: 'p vnode) = []" by (simp add: error_view_def)
  have g: "tags (error_view :: 'p vnode) = [''div'', ''h4'']" by (simp add: error_view_def)
  show ?thesis
    unfolding e using m t c g by (simp add: views_distinct)
qed


theorem error_status_renders_error_message_only_witness:
  "status \<lparr>environments = [], artifacts = [], resources = ([] :: unit IManagedResourceSummary list),
           hasManagedResources = False, status = ''ERROR'', loaded = True,
           params = Map.empty, SETTINGS = \<lparr>managedDelivery = None\<rparr>\<rparr> = ''ERROR'' \<and>
   Environments \<lparr>environments = [], artifacts = [], resources = ([] :: unit IManagedResourceSummary list),
           hasManagedResources = False, status = ''ERROR'', loaded = True,
           params = Map.empty, SETTINGS = \<lparr>managedDelivery = None\<rparr>\<rparr> = Inr error_view"
proof -
  let ?i = "\<lparr>environments = [], artifacts = [], resources = ([] :: unit IManagedResourceSummary list),
           hasManagedResources = False, status = ''ERROR'', loaded = True,
           params = Map.empty, SETTINGS = \<lparr>managedDelivery = None\<rparr>\<rparr>"
  have h: "status ?i = ''ERROR''" by simp
  have "Environments ?i = Inr error_view"
    using error_status_renders_error_message_only [OF h] by (rule conjunct1)
  with h show ?thesis by (intro conjI)
qed

text \<open>
  Claim C9: the error check comes first. With the status \<^verbatim>\<open>ERROR\<close> and
  \<^verbatim>\<open>loaded\<close> false the component returns the error view, not the loading view.
\<close>

theorem error_precedes_loading:
  fixes i :: "'p inputs"
  assumes "status i = ''ERROR''" and "\<not> loaded i"
  shows "Environments i = Inr error_view \<and> Environments i \<noteq> Inr loading_view \<and>
         components (error_view :: 'p vnode) = [] \<and>
         fst (Environments_memo env_id res_id i w) = Inr error_view"
proof -
  have e: "Environments i = Inr error_view"
    using assms(1) by (simp add: Environments_def render_error)
  moreover have "fst (Environments_memo env_id res_id i w) = Inr error_view"
    using assms(1) by (simp add: Environments_memo_def render_error split: prod.splits)
  moreover have "components (error_view :: 'p vnode) = []" by (simp add: error_view_def)
  ultimately show ?thesis by (simp add: views_distinct)
qed

theorem error_precedes_loading_witness:
  "status \<lparr>environments = [], artifacts = [], resources = ([] :: unit IManagedResourceSummary list),
           hasManagedResources = False, status = ''ERROR'', loaded = False,
           params = Map.empty, SETTINGS = \<lparr>managedDelivery = None\<rparr>\<rparr> = ''ERROR'' \<and>
   \<not> loaded \<lparr>environments = [], artifacts = [], resources = ([] :: unit IManagedResourceSummary list),
           hasManagedResources = False, status = ''ERROR'', loaded = False,
           params = Map.empty, SETTINGS = \<lparr>managedDelivery = None\<rparr>\<rparr> \<and>
   Environments \<lparr>environments = [], artifacts = [], resources = ([] :: unit IManagedResourceSummary list),
           hasManagedResources = False, status = ''ERROR'', loaded = False,
           params = Map.empty, SETTINGS = \<lparr>managedDelivery = None\<rparr>\<rparr> = Inr error_view"
proof -
  let ?i = "\<lparr>environments = [], artifacts = [], resources = ([] :: unit IManagedResourceSummary list),
           hasManagedResources = False, status = ''ERROR'', loaded = False,
           params = Map.empty, SETTINGS = \<lparr>managedDelivery = None\<rparr>\<rparr>"
  have h1: "status ?i = ''ERROR''" by simp
  have h2: "\<not> loaded ?i" by simp
  have "Environments ?i = Inr error_view"
    using error_precedes_loading [OF h1 h2] by (rule conjunct1)
  with h1 h2 show ?thesis by (intro conjI)
qed

text \<open>
  Claim C5, as the code has it: with \<^verbatim>\<open>loaded\<close> false and a status other than
  \<^verbatim>\<open>ERROR\<close> the component returns the loading view, which holds the spinner and
  nothing else. With the status \<^verbatim>\<open>ERROR\<close> the error view is returned instead.
\<close>

theorem not_loaded_renders_loading_only:
  fixes i :: "'p inputs"
  assumes "\<not> loaded i" and "status i \<noteq> ''ERROR''"
  shows "Environments i = Inr loading_view \<and>
         fst (Environments_memo env_id res_id i w) = Inr loading_view \<and>
         components (loading_view :: 'p vnode) = [Spinner ''medium'' ''Loading environments ...''] \<and>
         texts (loading_view :: 'p vnode) = [] \<and>
         tags (loading_view :: 'p vnode) = [''div''] \<and>
         Environments i \<noteq> Inr error_view \<and>
         (\<forall>link. Environments i \<noteq> Inr (unmanaged_view link)) \<and>
         (\<forall>j sel column. Environments i \<noteq> Inr (populated_view j sel column))"
proof -
  have e: "Environments i = Inr loading_view"
    using assms by (simp add: Environments_def render_loading)
  have m: "fst (Environments_memo env_id res_id i w) = Inr loading_view"
    using assms by (simp add: Environments_memo_def render_loading split: prod.splits)
  have c: "components (loading_view :: 'p vnode) = [Spinner ''medium'' ''Loading environments ...'']"
    by (simp add: loading_view_def)
  have t: "texts (loading_view :: 'p vnode) = []" by (simp add: loading_view_def)
  have g: "tags (loading_view :: 'p vnode) = [''div'']" by (simp add: loading_view_def)
  show ?thesis
    unfolding e using m t c g by (simp add: views_distinct views_distinct(1) [symmetric])
qed

theorem not_loaded_renders_loading_only_witness:
  "\<not> loaded \<lparr>environments = [], artifacts = [], resources = ([] :: unit IManagedResourceSummary list),
           hasManagedResources = False, status = ''FETCHING'', loaded = False,
           params = Map.empty, SETTINGS = \<lparr>managedDelivery = None\<rparr>\<rparr> \<and>
   status \<lparr>environments = [], artifacts = [], resources = ([] :: unit IManagedResourceSummary list),
           hasManagedResources = False, status = ''FETCHING'', loaded = False,
           params = Map.empty, SETTINGS = \<lparr>managedDelivery = None\<rparr>\<rparr> \<noteq> ''ERROR'' \<and>
   Environments \<lparr>environments = [], artifacts = [], resources = ([] :: unit IManagedResourceSummary list),
           hasManagedResources = False, status = ''FETCHING'', loaded = False,
           params = Map.empty, SETTINGS = \<lparr>managedDelivery = None\<rparr>\<rparr> = Inr loading_view"
proof -
  let ?i = "\<lparr>environments = [], artifacts = [], resources = ([] :: unit IManagedResourceSummary list),
           hasManagedResources = False, status = ''FETCHING'', loaded = False,
           params = Map.empty, SETTINGS = \<lparr>managedDelivery = None\<rparr>\<rparr>"
  have h1: "\<not> loaded ?i" by simp
  have h2: "status ?i \<noteq> ''ERROR''" by simp
  have "Environments ?i = Inr loading_view"
    using not_loaded_renders_loading_only [OF h1 h2] by (rule conjunct1)
  with h1 h2 show ?thesis by (intro conjI)
qed

theorem not_loaded_renders_loading_only_counterexample:
  "\<not> (\<not> loaded \<lparr>environments = [], artifacts = [], resources = ([] :: unit IManagedResourceSummary list),
           hasManagedResources = False, status = ''ERROR'', loaded = False,
           params = Map.empty, SETTINGS = \<lparr>managedDelivery = None\<rparr>\<rparr> \<longrightarrow>
       Environments \<lparr>environments = [], artifacts = [], resources = ([] :: unit IManagedResourceSummary list),
           hasManagedResources = False, status = ''ERROR'', loaded = False,
           params = Map.empty, SETTINGS = \<lparr>managedDelivery = None\<rparr>\<rparr> = Inr loading_view)"
  by (simp add: Environments_def render_body_def loadFailure_def views_distinct)

subsection \<open>The getting-started link\<close>

lemma gettingStartedLink_cases:
  "(\<forall>md url. managedDelivery S = Some md \<and> gettingStartedUrl md = Some url \<and> url \<noteq> [] \<longrightarrow>
      gettingStartedLink S = url) \<and>
   (managedDelivery S = None \<longrightarrow> gettingStartedLink S = defaultGettingStartedUrl) \<and>
   (\<forall>md. managedDelivery S = Some md \<and> (gettingStartedUrl md = None \<or> gettingStartedUrl md = Some []) \<longrightarrow>
      gettingStartedLink S = defaultGettingStartedUrl)"
  by (auto simp: gettingStartedLink_def)

text \<open>
  Claim C6, as the code has it: with \<^verbatim>\<open>loaded\<close> true, \<^verbatim>\<open>hasManagedResources\<close>
  false and a status other than \<^verbatim>\<open>ERROR\<close> the component returns the guidance for an
  unmanaged application. Its link is the configured
  \<^verbatim>\<open>SETTINGS.managedDelivery.gettingStartedUrl\<close> when that is present and not the empty
  string, and the default URL otherwise. With the status \<^verbatim>\<open>ERROR\<close> the error view is
  returned instead.
\<close>

theorem unmanaged_renders_guidance:
  fixes i :: "'p inputs"
  assumes "loaded i" and "\<not> hasManagedResources i" and "status i \<noteq> ''ERROR''"
  shows "\<exists>link. Environments i = Inr (unmanaged_view link) \<and>
           fst (Environments_memo env_id res_id i w) = Inr (unmanaged_view link) \<and>
           attribute ''href'' (unmanaged_view link :: 'p vnode) = [link] \<and>
           (\<forall>md url. managedDelivery (SETTINGS i) = Some md \<and> gettingStartedUrl md = Some url \<and>
                     url \<noteq> [] \<longrightarrow> link = url) \<and>
           (managedDelivery (SETTINGS i) = None \<longrightarrow> link = defaultGettingStartedUrl) \<and>
           (\<forall>md. managedDelivery (SETTINGS i) = Some md \<and>
                 (gettingStartedUrl md = None \<or> gettingStartedUrl md = Some []) \<longrightarrow>
                 link = defaultGettingStartedUrl)"
proof -
  let ?link = "gettingStartedLink (SETTINGS i)"
  have e: "Environments i = Inr (unmanaged_view ?link)"
    using assms by (simp add: Environments_def render_unmanaged)
  have m: "fst (Environments_memo env_id res_id i w) = Inr (unmanaged_view ?link)"
    using assms by (simp add: Environments_memo_def render_unmanaged split: prod.splits)
  have h: "attribute ''href'' (unmanaged_view ?link :: 'p vnode) = [?link]"
    by (simp add: unmanaged_view_def)
  from e m h gettingStartedLink_cases [of "SETTINGS i"] show ?thesis
    by (intro exI [of _ ?link]) (elim conjE, intro conjI)
qed

theorem unmanaged_renders_guidance_witness:
  "loaded \<lparr>environments = [], artifacts = [], resources = ([] :: unit IManagedResourceSummary list),
           hasManagedResources = False, status = ''FETCHED'', loaded = True, params = Map.empty,
           SETTINGS = \<lparr>managedDelivery = Some \<lparr>gettingStartedUrl = Some ''https://example.org/start''\<rparr>\<rparr>\<rparr> \<and>
   \<not> hasManagedResources \<lparr>environments = [], artifacts = [], resources = ([] :: unit IManagedResourceSummary list),
           hasManagedResources = False, status = ''FETCHED'', loaded = True, params = Map.empty,
           SETTINGS = \<lparr>managedDelivery = Some \<lparr>gettingStartedUrl = Some ''https://example.org/start''\<rparr>\<rparr>\<rparr> \<and>
   status \<lparr>environments = [], artifacts = [], resources = ([] :: unit IManagedResourceSummary list),
           hasManagedResources = False, status = ''FETCHED'', loaded = True, params = Map.empty,
           SETTINGS = \<lparr>managedDelivery = Some \<lparr>gettingStartedUrl = Some ''https://example.org/start''\<rparr>\<rparr>\<rparr> \<noteq> ''ERROR'' \<and>
   Environments \<lparr>environments = [], artifacts = [], resources = ([] :: unit IManagedResourceSummary list),
           hasManagedResources = False, status = ''FETCHED'', loaded = True, params = Map.empty,
           SETTINGS = \<lparr>managedDelivery = Some \<lparr>gettingStartedUrl = Some ''https://example.org/start''\<rparr>\<rparr>\<rparr>
     = Inr (unmanaged_view ''https://example.org/start'')"
proof -
  let ?i = "\<lparr>environments = [], artifacts = [], resources = ([] :: unit IManagedResourceSummary list),
           hasManagedResources = False, status = ''FETCHED'', loaded = True, params = Map.empty,
           SETTINGS = \<lparr>managedDelivery = Some \<lparr>gettingStartedUrl = Some ''https://example.org/start''\<rparr>\<rparr>\<rparr>"
  have h1: "loaded ?i" by simp
  have h2: "\<not> hasManagedResources ?i" by simp
  have h3: "status ?i \<noteq> ''ERROR''" by simp
  obtain link where l: "Environments ?i = Inr (unmanaged_view link)"
    "\<forall>md url. managedDelivery (SETTINGS ?i) = Some md \<and> gettingStartedUrl md = Some url \<and>
                     url \<noteq> [] \<longrightarrow> link = url"
    using unmanaged_renders_guidance [OF h1 h2 h3] by blast
  from l(2) have "link = ''https://example.org/start''" by simp
  with l(1) h1 h2 h3 show ?thesis by (intro conjI) simp_all
qed

theorem unmanaged_renders_guidance_counterexample:
  "\<not> (loaded \<lparr>environments = [], artifacts = [], resources = ([] :: unit IManagedResourceSummary list),
           hasManagedResources = False, status = ''ERROR'', loaded = True, params = Map.empty,
           SETTINGS = \<lparr>managedDelivery = None\<rparr>\<rparr> \<and>
       \<not> hasManagedResources \<lparr>environments = [], artifacts = [], resources = ([] :: unit IManagedResourceSummary list),
           hasManagedResources = False, status = ''ERROR'', loaded = True, params = Map.empty,
           SETTINGS = \<lparr>managedDelivery = None\<rparr>\<rparr> \<longrightarrow>
       Environments \<lparr>environments = [], artifacts = [], resources = ([] :: unit IManagedResourceSummary list),
           hasManagedResources = False, status = ''ERROR'', loaded = True, params = Map.empty,
           SETTINGS = \<lparr>managedDelivery = None\<rparr>\<rparr> = Inr (unmanaged_view defaultGettingStartedUrl)) \<and>
   \<not> (loaded \<lparr>environments = [], artifacts = [], resources = ([] :: unit IManagedResourceSummary list),
           hasManagedResources = False, status = ''FETCHED'', loaded = True, params = Map.empty,
           SETTINGS = \<lparr>managedDelivery = Some \<lparr>gettingStartedUrl = Some ''''\<rparr>\<rparr>\<rparr> \<and>
       \<not> hasManagedResources \<lparr>environments = [], artifacts = [], resources = ([] :: unit IManagedResourceSummary list),
           hasManagedResources = False, status = ''FETCHED'', loaded = True, params = Map.empty,
           SETTINGS = \<lparr>managedDelivery = Some \<lparr>gettingStartedUrl = Some ''''\<rparr>\<rparr>\<rparr> \<longrightarrow>
       Environments \<lparr>environments = [], artifacts = [], resources = ([] :: unit IManagedResourceSummary list),
           hasManagedResources = False, status = ''FETCHED'', loaded = True, params = Map.empty,
           SETTINGS = \<lparr>managedDelivery = Some \<lparr>gettingStartedUrl = Some ''''\<rparr>\<rparr>\<rparr> = Inr (unmanaged_view ''''))"
proof -
  have 1: "Environments \<lparr>environments = [], artifacts = [], resources = ([] :: unit IManagedResourceSummary list),
           hasManagedResources = False, status = ''ERROR'', loaded = True, params = Map.empty,
           SETTINGS = \<lparr>managedDelivery = None\<rparr>\<rparr> = Inr error_view"
    by (simp add: Environments_def render_error)
  have 2: "Environments \<lparr>environments = [], artifacts = [], resources = ([] :: unit IManagedResourceSummary list),
           hasManagedResources = False, status = ''FETCHED'', loaded = True, params = Map.empty,
           SETTINGS = \<lparr>managedDelivery = Some \<lparr>gettingStartedUrl = Some ''''\<rparr>\<rparr>\<rparr>
        = Inr (unmanaged_view defaultGettingStartedUrl)"
    by (simp add: Environments_def render_unmanaged gettingStartedLink_def)
  have 3: "(unmanaged_view defaultGettingStartedUrl :: unit vnode) \<noteq> unmanaged_view ''''"
    by (simp add: unmanaged_view_def defaultGettingStartedUrl_def)
  show ?thesis
    unfolding 1 2 by (simp add: views_distinct 3)
qed

subsection \<open>Selecting a version\<close>

text \<open>
  Claim C8: a click on a version changes nothing the component keeps (its memo cells)
  and not the router parameters; it calls \<^verbatim>\<open>go\<close> exactly when the clicked version
  differs from the selected one, once, with the clicked version as parameters: to
  \<^verbatim>\<open>.artifactVersion\<close> when no version is selected, to \<^verbatim>\<open>.\<close> otherwise.
\<close>

theorem versionSelected_navigates:
  "byId_memo (versionSelected sel clicked w) = byId_memo w \<and>
   byEnvironment_memo (versionSelected sel clicked w) = byEnvironment_memo w \<and>
   selectedVersion_memo (versionSelected sel clicked w) = selectedVersion_memo w \<and>
   fresh (versionSelected sel clicked w) = fresh w \<and>
   routerParams (versionSelected sel clicked w) = routerParams w \<and>
   ((\<exists>target ps. calls (versionSelected sel clicked w) = calls w @ [Go target ps]) \<longleftrightarrow>
      Some clicked \<noteq> sel) \<and>
   (Some clicked = sel \<longrightarrow> calls (versionSelected sel clicked w) = calls w) \<and>
   (Some clicked \<noteq> sel \<and> sel = None \<longrightarrow>
      calls (versionSelected sel clicked w) = calls w @ [Go ''.artifactVersion'' (Some clicked)]) \<and>
   (Some clicked \<noteq> sel \<and> sel \<noteq> None \<longrightarrow>
      calls (versionSelected sel clicked w) = calls w @ [Go ''.'' (Some clicked)])"
  by (simp add: versionSelected_def isEqual_def go_def)

theorem versionSelected_navigates_witness:
  "Some [''type'' \<mapsto> JStr ''deb'', ''name'' \<mapsto> JStr ''deck'', ''version'' \<mapsto> JStr ''1.0.1'']
     \<noteq> selectedVersion [''type'' \<mapsto> JStr ''deb'', ''name'' \<mapsto> JStr ''deck'', ''version'' \<mapsto> JStr ''1.0.0''] \<and>
   selectedVersion [''type'' \<mapsto> JStr ''deb'', ''name'' \<mapsto> JStr ''deck'', ''version'' \<mapsto> JStr ''1.0.0''] \<noteq> None \<and>
   calls (versionSelected
            (selectedVersion [''type'' \<mapsto> JStr ''deb'', ''name'' \<mapsto> JStr ''deck'', ''version'' \<mapsto> JStr ''1.0.0''])
            [''type'' \<mapsto> JStr ''deb'', ''name'' \<mapsto> JStr ''deck'', ''version'' \<mapsto> JStr ''1.0.1'']
            (mount [''type'' \<mapsto> JStr ''deb'', ''name'' \<mapsto> JStr ''deck'', ''version'' \<mapsto> JStr ''1.0.0''] :: unit world))
     = [Go ''.'' (Some [''type'' \<mapsto> JStr ''deb'', ''name'' \<mapsto> JStr ''deck'', ''version'' \<mapsto> JStr ''1.0.1''])]"
proof -
  let ?ps = "[''type'' \<mapsto> JStr ''deb'', ''name'' \<mapsto> JStr ''deck'', ''version'' \<mapsto> JStr ''1.0.0'']"
  let ?clicked = "[''type'' \<mapsto> JStr ''deb'', ''name'' \<mapsto> JStr ''deck'', ''version'' \<mapsto> JStr ''1.0.1'']"
  let ?w = "mount ?ps :: unit world"
  have sel: "selectedVersion ?ps \<noteq> None"
    by (simp add: selectedVersion_def getProp_def)
  have differs: "Some ?clicked \<noteq> selectedVersion ?ps"
  proof
    assume "Some ?clicked = selectedVersion ?ps"
    then have "?clicked = pick ?ps [''type'', ''name'', ''version'']"
      by (simp add: selectedVersion_def getProp_def)
    then have "?clicked ''version'' = pick ?ps [''type'', ''name'', ''version''] ''version''"
      by (rule arg_cong)
    then show False by (simp add: pick_restrict)
  qed
  have "Some ?clicked \<noteq> selectedVersion ?ps \<and> selectedVersion ?ps \<noteq> None \<longrightarrow>
      calls (versionSelected (selectedVersion ?ps) ?clicked ?w) = calls ?w @ [Go ''.'' (Some ?clicked)]"
    using versionSelected_navigates [of "selectedVersion ?ps" ?clicked ?w] by (elim conjE)
  with sel differs have "calls (versionSelected (selectedVersion ?ps) ?clicked ?w) = calls ?w @ [Go ''.'' (Some ?clicked)]"
    by (elim impE) (intro conjI)
  moreover have "calls ?w = []" by (simp add: mount_def)
  ultimately have "calls (versionSelected (selectedVersion ?ps) ?clicked ?w) = [Go ''.'' (Some ?clicked)]"
    by simp
  with differs sel show ?thesis by (intro conjI)
qed

subsection \<open>Memoised resource maps\<close>

lemma environments_read_append:
  "environments_read (xs @ ys) = environments_read xs @ environments_read ys"
  by (induction xs rule: environments_read.induct) simp_all

lemma resources_read_append:
  "resources_read (xs @ ys) = resources_read xs @ resources_read ys"
  by (induction xs rule: resources_read.induct) simp_all

lemma memo_inv_mount: "memo_inv E R (mount ps)"
  by (simp add: memo_inv_def mount_def)

lemma memo_inv_mono: "memo_inv E R w \<Longrightarrow> E \<subseteq> E' \<Longrightarrow> R \<subseteq> R' \<Longrightarrow> memo_inv E' R' w"
  unfolding memo_inv_def by blast

lemma memo_inv_versionSelected: "memo_inv E R (versionSelected sel c w) = memo_inv E R w"
  by (simp add: memo_inv_def versionSelected_def go_def)

lemma memo_inv_onRequestClose: "memo_inv E R (onRequestClose w) = memo_inv E R w"
  by (simp add: memo_inv_def onRequestClose_def go_def)

lemma memo_inv_use_selectedVersion:
  "memo_inv E R w \<Longrightarrow> memo_inv E R (snd (use_selectedVersion ps w))"
  unfolding memo_inv_def
  by (auto simp: use_selectedVersion_def useMemo_def split: option.splits prod.splits if_splits)

lemma derive_correct:
  assumes inv: "memo_inv E R w"
    and sE: "single_valued (insert envs E)" and sR: "single_valued (insert ress R)"
  shows "fst (derive envs ress w) =
           (resourcesById (snd ress), resourcesByEnvironment (snd envs) (snd ress))"
    and "memo_inv (insert envs E) (insert ress R) (snd (derive envs ress w))"
proof -
  obtain eid es where envs: "envs = (eid, es)" by (cases envs)
  obtain rid rs where ress: "ress = (rid, rs)" by (cases ress)
  have uR: "c = rs" if "(rid, c) \<in> R" for c
    using sR that unfolding ress single_valued_def by blast
  have uE: "c = es" if "(eid, c) \<in> E" for c
    using sE that unfolding envs single_valued_def by blast
  show "fst (derive envs ress w) =
           (resourcesById (snd ress), resourcesByEnvironment (snd envs) (snd ress))"
    using inv uR uE unfolding envs ress memo_inv_def
    by (auto simp: derive_def useMemo_def resourcesByEnvironment_def Let_def
        split: option.splits prod.splits if_splits)
  show "memo_inv (insert envs E) (insert ress R) (snd (derive envs ress w))"
    using inv uR uE unfolding envs ress memo_inv_def
    by (auto simp: derive_def useMemo_def resourcesByEnvironment_def Let_def
        split: option.splits prod.splits if_splits)
qed


lemma step_inv:
  assumes inv: "memo_inv E R w"
    and sE: "single_valued (E \<union> set (environments_read [ev]))"
    and sR: "single_valued (R \<union> set (resources_read [ev]))"
  shows "memo_inv (E \<union> set (environments_read [ev])) (R \<union> set (resources_read [ev])) (step ev w)"
proof (cases ev)
  case (Render env_id res_id i)
  have "memo_inv (insert (env_id, environments i) E) (insert (res_id, resources i) R)
          (snd (derive (env_id, environments i) (res_id, resources i) w))"
    using inv sE sR unfolding Render by (intro derive_correct(2)) simp_all
  then have "memo_inv (insert (env_id, environments i) E) (insert (res_id, resources i) R)
          (snd (use_selectedVersion (params i)
             (snd (derive (env_id, environments i) (res_id, resources i) w))))"
    by (rule memo_inv_use_selectedVersion)
  then show ?thesis
    unfolding Render by (auto simp: Environments_memo_def split: prod.splits)
next
  case (VersionSelected sel c)
  with inv show ?thesis by (simp add: memo_inv_versionSelected)
next
  case RequestClose
  with inv show ?thesis by (simp add: memo_inv_onRequestClose)
qed

lemma run_inv:
  assumes "memo_inv E R w"
    and "single_valued (E \<union> set (environments_read evs))"
    and "single_valued (R \<union> set (resources_read evs))"
  shows "memo_inv (E \<union> set (environments_read evs)) (R \<union> set (resources_read evs)) (run evs w)"
  using assms
proof (induction evs arbitrary: E R w)
  case Nil
  then show ?case by (simp add: run_def)
next
  case (Cons ev evs)
  let ?E = "E \<union> set (environments_read [ev])"
  let ?R = "R \<union> set (resources_read [ev])"
  have eq: "E \<union> set (environments_read (ev # evs)) = ?E \<union> set (environments_read evs)"
    "R \<union> set (resources_read (ev # evs)) = ?R \<union> set (resources_read evs)"
    using environments_read_append [of "[ev]" evs] resources_read_append [of "[ev]" evs]
    by auto
  have sE: "single_valued ?E" and sR: "single_valued ?R"
    using Cons.prems(2,3) unfolding eq by (auto intro: single_valued_subset)
  have "memo_inv ?E ?R (step ev w)"
    using Cons.prems(1) sE sR by (rule step_inv)
  then have "memo_inv (?E \<union> set (environments_read evs)) (?R \<union> set (resources_read evs))
      (run evs (step ev w))"
    using Cons.prems(2,3) unfolding eq by (rule Cons.IH)
  then show ?case unfolding eq by (simp add: run_def)
qed

lemma derive_after_run:
  assumes "immutable (evs @ [Render env_id res_id i])"
  shows "fst (derive (env_id, environments i) (res_id, resources i) (run evs (mount ps))) =
           (resourcesById (resources i), resourcesByEnvironment (environments i) (resources i))"
proof -
  let ?E = "set (environments_read evs)" and ?R = "set (resources_read evs)"
  have sE: "single_valued (insert (env_id, environments i) ?E)"
    and sR: "single_valued (insert (res_id, resources i) ?R)"
    using assms by (simp_all add: immutable_def environments_read_append resources_read_append)
  then have "single_valued ({} \<union> ?E)" "single_valued ({} \<union> ?R)"
    by (auto intro: single_valued_subset)
  with memo_inv_mount [of "{}" "{}" ps]
  have "memo_inv ({} \<union> ?E) ({} \<union> ?R) (run evs (mount ps))"
    by (rule run_inv)
  then have "memo_inv ?E ?R (run evs (mount ps))" by simp
  from derive_correct(1) [OF this sE sR] show ?thesis by simp
qed

text \<open>
  Claim C7, as the code has it. The cells compare the arrays by identity, so a render
  that receives an array again returns the maps computed from the contents the array had
  before. When no array is written after it was handed out (\<open>immutable\<close>), then,
  whatever renders and handler calls came before, a render returns as
  \<^verbatim>\<open>resourcesById\<close> and \<^verbatim>\<open>resourcesByEnvironment\<close> the values computed from the
  \<^verbatim>\<open>resources\<close> and \<^verbatim>\<open>environments\<close> it reads, so two renders that read equal
  collections return equal maps; the handlers leave the memo cells as they are.
\<close>

theorem derived_views_pure:
  fixes i1 i2 :: "'p inputs"
  assumes "immutable (evs1 @ [Render e1 r1 i1])" and "immutable (evs2 @ [Render e2 r2 i2])"
    and "environments i1 = environments i2" and "resources i1 = resources i2"
  shows "fst (derive (e1, environments i1) (r1, resources i1) (run evs1 (mount ps1))) =
           fst (derive (e2, environments i2) (r2, resources i2) (run evs2 (mount ps2))) \<and>
         fst (derive (e1, environments i1) (r1, resources i1) (run evs1 (mount ps1))) =
           (resourcesById (resources i1), resourcesByEnvironment (environments i1) (resources i1)) \<and>
         byId_memo (versionSelected sel clicked w) = byId_memo w \<and>
         byEnvironment_memo (versionSelected sel clicked w) = byEnvironment_memo w \<and>
         byId_memo (onRequestClose w) = byId_memo w \<and>
         byEnvironment_memo (onRequestClose w) = byEnvironment_memo w"
proof -
  have 1: "fst (derive (e1, environments i1) (r1, resources i1) (run evs1 (mount ps1))) =
      (resourcesById (resources i1), resourcesByEnvironment (environments i1) (resources i1))"
    using assms(1) by (rule derive_after_run)
  have 2: "fst (derive (e2, environments i2) (r2, resources i2) (run evs2 (mount ps2))) =
      (resourcesById (resources i2), resourcesByEnvironment (environments i2) (resources i2))"
    using assms(2) by (rule derive_after_run)
  have 3: "byId_memo (versionSelected sel clicked w) = byId_memo w"
    "byEnvironment_memo (versionSelected sel clicked w) = byEnvironment_memo w"
    by (simp_all add: versionSelected_def go_def)
  have 4: "byId_memo (onRequestClose w) = byId_memo w"
    "byEnvironment_memo (onRequestClose w) = byEnvironment_memo w"
    by (simp_all add: onRequestClose_def go_def)
  from 1 2 assms(3,4) have "fst (derive (e1, environments i1) (r1, resources i1) (run evs1 (mount ps1))) =
           fst (derive (e2, environments i2) (r2, resources i2) (run evs2 (mount ps2)))"
    by simp
  with 1 3 4 show ?thesis by (intro conjI)
qed

theorem derived_views_pure_witness:
  "immutable
     ([Render 1 2 \<lparr>environments = [\<lparr>name = ''test'', resourceIds = [''r1'']\<rparr>], artifacts = [],
                   resources = [\<lparr>id' = ''r1'', summary = ''cluster''\<rparr>],
                   hasManagedResources = True, status = ''FETCHED'', loaded = True,
                   params = Map.empty, SETTINGS = \<lparr>managedDelivery = None\<rparr>\<rparr>,
       VersionSelected None [''version'' \<mapsto> JStr ''1.0.0'']] @
      [Render 1 2 \<lparr>environments = [\<lparr>name = ''test'', resourceIds = [''r1'']\<rparr>], artifacts = [],
                   resources = [\<lparr>id' = ''r1'', summary = ''cluster''\<rparr>],
                   hasManagedResources = True, status = ''FETCHED'', loaded = True,
                   params = Map.empty, SETTINGS = \<lparr>managedDelivery = None\<rparr>\<rparr>]) \<and>
   immutable
     ([] @
      [Render 5 6 \<lparr>environments = [\<lparr>name = ''test'', resourceIds = [''r1'']\<rparr>], artifacts = [],
                   resources = [\<lparr>id' = ''r1'', summary = ''cluster''\<rparr>],
                   hasManagedResources = True, status = ''FETCHED'', loaded = True,
                   params = Map.empty, SETTINGS = \<lparr>managedDelivery = None\<rparr>\<rparr>]) \<and>
   fst (derive (1, [\<lparr>name = ''test'', resourceIds = [''r1'']\<rparr>]) (2, [\<lparr>id' = ''r1'', summary = ''cluster''\<rparr>])
         (run [Render 1 2 \<lparr>environments = [\<lparr>name = ''test'', resourceIds = [''r1'']\<rparr>], artifacts = [],
                   resources = [\<lparr>id' = ''r1'', summary = ''cluster''\<rparr>],
                   hasManagedResources = True, status = ''FETCHED'', loaded = True,
                   params = Map.empty, SETTINGS = \<lparr>managedDelivery = None\<rparr>\<rparr>,
               VersionSelected None [''version'' \<mapsto> JStr ''1.0.0'']] (mount Map.empty))) =
   fst (derive (5, [\<lparr>name = ''test'', resourceIds = [''r1'']\<rparr>]) (6, [\<lparr>id' = ''r1'', summary = ''cluster''\<rparr>])
         (run [] (mount Map.empty)))"
proof -
  let ?i = "\<lparr>environments = [\<lparr>name = ''test'', resourceIds = [''r1'']\<rparr>], artifacts = [],
                   resources = [\<lparr>id' = ''r1'', summary = ''cluster''\<rparr>],
                   hasManagedResources = True, status = ''FETCHED'', loaded = True,
                   params = Map.empty, SETTINGS = \<lparr>managedDelivery = None\<rparr>\<rparr>"
  let ?evs = "[Render 1 2 ?i, VersionSelected None [''version'' \<mapsto> JStr ''1.0.0'']]"
  have h1: "immutable (?evs @ [Render 1 2 ?i])"
    by (simp add: immutable_def single_valued_def)
  have h2: "immutable ([] @ [Render 5 6 ?i])"
    by (simp add: immutable_def single_valued_def)
  have h3: "environments ?i = environments ?i" and h4: "resources ?i = resources ?i"
    by (rule refl)+
  have "fst (derive (1, environments ?i) (2, resources ?i) (run ?evs (mount Map.empty))) =
        fst (derive (5, environments ?i) (6, resources ?i) (run [] (mount Map.empty)))"
    using derived_views_pure [OF h1 h2 h3 h4] by (rule conjunct1)
  then have "fst (derive (1, [\<lparr>name = ''test'', resourceIds = [''r1'']\<rparr>]) (2, [\<lparr>id' = ''r1'', summary = ''cluster''\<rparr>])
         (run ?evs (mount Map.empty))) =
     fst (derive (5, [\<lparr>name = ''test'', resourceIds = [''r1'']\<rparr>]) (6, [\<lparr>id' = ''r1'', summary = ''cluster''\<rparr>])
         (run [] (mount Map.empty)))"
    by simp
  with h1 h2 show ?thesis by (intro conjI)
qed

theorem derived_views_pure_counterexample:
  "fst (derive (1, [\<lparr>name = ''test'', resourceIds = [''r1'']\<rparr>])
              (2, [\<lparr>id' = ''r1'', summary = ''changed''\<rparr>])
         (run [Render 1 2 \<lparr>environments = [\<lparr>name = ''test'', resourceIds = [''r1'']\<rparr>], artifacts = [],
                   resources = [\<lparr>id' = ''r1'', summary = ''cluster''\<rparr>],
                   hasManagedResources = True, status = ''FETCHED'', loaded = True,
                   params = Map.empty, SETTINGS = \<lparr>managedDelivery = None\<rparr>\<rparr>]
            (mount Map.empty)))
   \<noteq> fst (derive (1, [\<lparr>name = ''test'', resourceIds = [''r1'']\<rparr>])
              (2, [\<lparr>id' = ''r1'', summary = ''changed''\<rparr>])
         (run [] (mount Map.empty)))"
proof -
  let ?envs = "[\<lparr>name = ''test'', resourceIds = [''r1'']\<rparr>]"
  let ?old = "[\<lparr>id' = ''r1'', summary = ''cluster''\<rparr>]"
  let ?new = "[\<lparr>id' = ''r1'', summary = ''changed''\<rparr>]"
  let ?first = "\<lparr>environments = ?envs, artifacts = [], resources = ?old,
                   hasManagedResources = True, status = ''FETCHED'', loaded = True,
                   params = Map.empty, SETTINGS = \<lparr>managedDelivery = None\<rparr>\<rparr>"
  have cell: "byId_memo (run [Render 1 2 ?first] (mount Map.empty)) = Some (2, 0, resourcesById ?old)"
    by (simp add: run_def mount_def Environments_memo_def derive_def use_selectedVersion_def
        useMemo_def Let_def)
  have "useMemo (resourcesById ?new) 2 (byId_memo (run [Render 1 2 ?first] (mount Map.empty)))
            (fresh (run [Render 1 2 ?first] (mount Map.empty)))
        = ((0, resourcesById ?old), byId_memo (run [Render 1 2 ?first] (mount Map.empty)),
           fresh (run [Render 1 2 ?first] (mount Map.empty)))"
    unfolding cell by (simp add: useMemo_def)
  then have stale: "fst (fst (derive (1, ?envs) (2, ?new) (run [Render 1 2 ?first] (mount Map.empty))))
      = resourcesById ?old"
    by (simp add: derive_def Let_def split: prod.splits)
  have new: "fst (fst (derive (1, ?envs) (2, ?new) (run [] (mount Map.empty :: string world))))
      = resourcesById ?new"
    by (simp add: run_def mount_def derive_def useMemo_def Let_def)
  have differ: "resourcesById ?old \<noteq> resourcesById ?new"
  proof
    assume "resourcesById ?old = resourcesById ?new"
    then have "resourcesById ?old ''r1'' = resourcesById ?new ''r1''" by (rule arg_cong)
    then show False by (simp add: resourcesById_def keyBy_def)
  qed
  show ?thesis
  proof
    assume "fst (derive (1, ?envs) (2, ?new) (run [Render 1 2 ?first] (mount Map.empty)))
      = fst (derive (1, ?envs) (2, ?new) (run [] (mount Map.empty)))"
    then have "fst (fst (derive (1, ?envs) (2, ?new) (run [Render 1 2 ?first] (mount Map.empty))))
      = fst (fst (derive (1, ?envs) (2, ?new) (run [] (mount Map.empty))))"
      by (rule arg_cong)
    with stale new differ show False by simp
  qed
qed

end
